theory Spec2Isabelle
  imports Main "HOL-Library.AList" "HOL-Library.Sublist"
begin

section \<open>Data model\<close>

text \<open>
  The views of \<^verbatim>\<open>rooms/views.py\<close> work on four tables (Room, Category, Amenity, Booking)
  through Django's ORM and answer through Django REST framework. The tables are modelled
  as lists of rows in the order the default manager yields them; primary keys, user ids
  and calendar dates (a day number) are integers.
\<close>

type_synonym pk = int
type_synonym date = int
type_synonym attrs = "(string \<times> string) list"

text \<open>
  \<^verbatim>\<open>Category.CategoryKindChoices\<close> and \<^verbatim>\<open>Booking.BookingKindChoices\<close> are declared in
  \<^verbatim>\<open>categories/models.py\<close> and \<^verbatim>\<open>bookings/models.py\<close>; the views name the members
  \<^verbatim>\<open>EXPERIENCES\<close> and \<^verbatim>\<open>ROOM\<close> of the first and \<^verbatim>\<open>ROOM\<close> of the second. Both are
  two-valued enumerations.
\<close>

datatype CategoryKindChoices = CategoryKind_ROOM | CategoryKind_EXPERIENCES

datatype BookingKindChoices = BookingKind_ROOM | BookingKind_EXPERIENCE

record Category =
  category_pk :: pk
  category_kind :: CategoryKindChoices

record Amenity =
  amenity_pk :: pk
  amenity_name :: string
  amenity_description :: string

text \<open>
  A room row: its key, its owner (a user id), its category (a foreign key), the rows of
  the many-to-many relation \<^verbatim>\<open>room.amenities\<close> (amenity keys, in insertion order) and the
  descriptive columns, which the views never look into (attribute name and value).
\<close>

record Room =
  room_pk :: pk
  room_owner :: pk
  room_category :: "pk option"
  room_amenities :: "pk list"
  room_fields :: attrs

record Booking =
  booking_pk :: pk
  booking_room :: "pk option"
  booking_user :: pk
  booking_kind :: BookingKindChoices
  check_in :: date
  check_out :: date

record store =
  Room_objects :: "Room list"
  Category_objects :: "Category list"
  Amenity_objects :: "Amenity list"
  Booking_objects :: "Booking list"

section \<open>Requests, responses, exceptions\<close>

text \<open>
  The values \<^verbatim>\<open>request.data.get(key)\<close> can return for the keys the views read: \<^verbatim>\<open>None\<close>
  (the key is absent, or null), a boolean, an integer, or a list of integers. Strings and
  nested objects are left out of the model.
\<close>

datatype pyval = PyNone | PyBool bool | PyInt int | PyList "int list"

text \<open>Python's truth value, as \<^verbatim>\<open>if x:\<close> and \<^verbatim>\<open>if not x:\<close> test it.\<close>

fun truthy :: "pyval \<Rightarrow> bool" where
  "truthy PyNone = False"
| "truthy (PyBool b) = b"
| "truthy (PyInt n) = (n \<noteq> 0)"
| "truthy (PyList xs) = (xs \<noteq> [])"

datatype exn =
    NotFound
  | NotAuthenticated
  | PermissionDenied
  | ParseError string
  | MethodNotAllowed
  | DoesNotExist
  | TypeError
  | ValueError
  | NameError
  | OverflowError

text \<open>\<^verbatim>\<open>for x in v:\<close> raises TypeError unless \<^verbatim>\<open>v\<close> is iterable.\<close>

fun iter :: "pyval \<Rightarrow> exn + int list" where
  "iter (PyList xs) = Inr xs"
| "iter PyNone = Inl TypeError"
| "iter (PyBool b) = Inl TypeError"
| "iter (PyInt n) = Inl TypeError"

datatype http_method = GET | POST | PUT | DELETE

datatype user = AnonymousUser | User pk

record request_data =
  data_fields :: attrs
  data_category :: pyval
  data_amenities :: pyval

record request =
  req_method :: http_method
  req_user :: user
  req_data :: request_data
  query_params :: "(string \<times> string) list"

datatype body =
    RoomData Room
  | RoomListData "Room list"
  | BookingListData "Booking list"
  | Errors "string list"
  | NoData

datatype response = Response body nat

type_synonym 'a result = "(exn + 'a) \<times> store"

text \<open>
  \<^verbatim>\<open>RoomDetailSerializer\<close> is declared in \<^verbatim>\<open>rooms/serializers.py\<close>, which is not among the
  sources. Its validation is a parameter of every view that uses it: given the instance
  (when updating), the \<^verbatim>\<open>partial\<close> flag and the request data, it yields
  \<^verbatim>\<open>serializer.errors\<close>; \<^verbatim>\<open>is_valid()\<close> holds when there are none.
\<close>

type_synonym validator = "Room option \<Rightarrow> bool \<Rightarrow> request_data \<Rightarrow> string list"

definition is_valid :: "string list \<Rightarrow> bool" where
  "is_valid errors = (errors = [])"

section \<open>The ORM operations the views call\<close>

text \<open>
  The keys an integer column of the database holds: 64 bits, signed. A lookup by a key
  outside this range does not reach the table: binding the parameter raises
  OverflowError. Inside the range, \<^verbatim>\<open>objects.get(pk=k)\<close> yields the row with that key or
  raises DoesNotExist.
\<close>

definition key_in_range :: "int \<Rightarrow> bool" where
  "key_in_range k = (- (2 ^ 63) \<le> k \<and> k < 2 ^ 63)"

definition Room_get :: "store \<Rightarrow> pk \<Rightarrow> exn + Room" where
  "Room_get st k =
     (if \<not> key_in_range k then Inl OverflowError
      else case find (\<lambda>r. room_pk r = k) (Room_objects st) of
             None \<Rightarrow> Inl DoesNotExist
           | Some r \<Rightarrow> Inr r)"

definition Amenity_get :: "store \<Rightarrow> pk \<Rightarrow> exn + Amenity" where
  "Amenity_get st k =
     (if \<not> key_in_range k then Inl OverflowError
      else case find (\<lambda>a. amenity_pk a = k) (Amenity_objects st) of
             None \<Rightarrow> Inl DoesNotExist
           | Some a \<Rightarrow> Inr a)"

definition Category_find :: "store \<Rightarrow> pk \<Rightarrow> exn + Category" where
  "Category_find st k =
     (if \<not> key_in_range k then Inl OverflowError
      else case find (\<lambda>c. category_pk c = k) (Category_objects st) of
             None \<Rightarrow> Inl DoesNotExist
           | Some c \<Rightarrow> Inr c)"

text \<open>
  \<^verbatim>\<open>Category.objects.get(pk=v)\<close> on a request value: a boolean is the integer 0 or 1, a
  list is no key at all (TypeError), \<^verbatim>\<open>None\<close> matches no row.
\<close>

fun Category_get :: "store \<Rightarrow> pyval \<Rightarrow> exn + Category" where
  "Category_get st (PyInt n) = Category_find st n"
| "Category_get st (PyBool b) = Category_find st (if b then 1 else 0)"
| "Category_get st PyNone = Inl DoesNotExist"
| "Category_get st (PyList xs) = Inl TypeError"

text \<open>A key no room row has: one more than the largest in use.\<close>

definition fresh_pk :: "Room list \<Rightarrow> pk" where
  "fresh_pk rs = foldr max (map room_pk rs) 0 + 1"

text \<open>
  \<^verbatim>\<open>serializer.save(owner=..., category=...)\<close> without an instance inserts a row with the
  validated attributes; its relation to amenities starts empty.
\<close>

definition Room_create :: "attrs \<Rightarrow> pk \<Rightarrow> Category \<Rightarrow> store \<Rightarrow> Room \<times> store" where
  "Room_create vd own cat st =
     (let room = \<lparr> room_pk = fresh_pk (Room_objects st),
                   room_owner = own,
                   room_category = Some (category_pk cat),
                   room_amenities = [],
                   room_fields = vd \<rparr>
      in (room, st\<lparr> Room_objects := Room_objects st @ [room] \<rparr>))"

text \<open>Writing the columns of an instance back to its row; the relation rows stay.\<close>

definition Room_save :: "Room \<Rightarrow> store \<Rightarrow> store" where
  "Room_save room st =
     st\<lparr> Room_objects :=
          map (\<lambda>r. if room_pk r = room_pk room
                   then room\<lparr> room_amenities := room_amenities r \<rparr>
                   else r)
              (Room_objects st) \<rparr>"

definition set_attrs :: "attrs \<Rightarrow> attrs \<Rightarrow> attrs" where
  "set_attrs vd old = fold (\<lambda>(k, v). AList.update k v) vd old"

text \<open>
  \<^verbatim>\<open>serializer.save(...)\<close> with an instance: every validated attribute is set on the
  instance, then the category if one is passed, the instance is saved and returned.
\<close>

definition serializer_update ::
  "Room \<Rightarrow> attrs \<Rightarrow> Category option \<Rightarrow> store \<Rightarrow> Room \<times> store" where
  "serializer_update inst vd cat st =
     (let r1 = inst\<lparr> room_fields := set_attrs vd (room_fields inst) \<rparr>;
          r2 = (case cat of
                  None \<Rightarrow> r1
                | Some c \<Rightarrow> r1\<lparr> room_category := Some (category_pk c) \<rparr>)
      in (r2, Room_save r2 st))"

definition upd_amenities :: "pk \<Rightarrow> (pk list \<Rightarrow> pk list) \<Rightarrow> store \<Rightarrow> store" where
  "upd_amenities k f st =
     st\<lparr> Room_objects :=
          map (\<lambda>r. if room_pk r = k then r\<lparr> room_amenities := f (room_amenities r) \<rparr> else r)
              (Room_objects st) \<rparr>"

text \<open>\<^verbatim>\<open>room.amenities.add(amenity)\<close>: a relation row is inserted unless it is there.\<close>

definition add_pk :: "pk \<Rightarrow> pk list \<Rightarrow> pk list" where
  "add_pk a xs = (if a \<in> set xs then xs else xs @ [a])"

definition amenities_add :: "pk \<Rightarrow> Amenity \<Rightarrow> store \<Rightarrow> store" where
  "amenities_add k a st = upd_amenities k (add_pk (amenity_pk a)) st"

text \<open>\<^verbatim>\<open>room.amenities.clear()\<close>\<close>

definition amenities_clear :: "pk \<Rightarrow> store \<Rightarrow> store" where
  "amenities_clear k st = upd_amenities k (\<lambda>xs. []) st"

text \<open>\<^verbatim>\<open>room.amenities.all()\<close>: the relation rows of the room, read from the store.\<close>

definition amenities_all :: "store \<Rightarrow> pk \<Rightarrow> pk list" where
  "amenities_all st k =
     (case find (\<lambda>r. room_pk r = k) (Room_objects st) of
        None \<Rightarrow> []
      | Some r \<Rightarrow> room_amenities r)"

text \<open>
  Modelled from the spec: the Booking model (\<^verbatim>\<open>bookings/models.py\<close>) is not among the
  sources, so what its foreign key to the room does when the room is deleted is missing.
  Deleting a room acts on its bookings (section 3), whose reference to a room can be null;
  the reference is set to null and the booking rows stay.

  \<^verbatim>\<open>room.delete()\<close> (line 160): the row of the room goes, and with it its relation rows.
\<close>

definition Room_delete :: "Room \<Rightarrow> store \<Rightarrow> store" where
  "Room_delete room st =
     st\<lparr> Room_objects := filter (\<lambda>r. room_pk r \<noteq> room_pk room) (Room_objects st),
         Booking_objects :=
           map (\<lambda>b. if booking_room b = Some (room_pk room)
                    then b\<lparr> booking_room := None \<rparr>
                    else b)
               (Booking_objects st) \<rparr>"

text \<open>
  \<^verbatim>\<open>RoomDetailSerializer(room).data\<close>: the columns of the instance and the amenities the
  relation holds when the data is read.
\<close>

definition RoomDetailSerializer_data :: "store \<Rightarrow> Room \<Rightarrow> body" where
  "RoomDetailSerializer_data st room =
     RoomData (room\<lparr> room_amenities := amenities_all st (room_pk room) \<rparr>)"

text \<open>
  \<^verbatim>\<open>with transaction.atomic():\<close> an exception leaving the block discards every write made
  inside it.
\<close>

definition atomic :: "(store \<Rightarrow> 'a result) \<Rightarrow> store \<Rightarrow> 'a result" where
  "atomic blk st =
     (case blk st of
        (Inl e, st') \<Rightarrow> (Inl e, st)
      | (Inr v, st') \<Rightarrow> (Inr v, st'))"

section \<open>Permissions\<close>

text \<open>
  \<^verbatim>\<open>permission_classes = [IsAuthenticatedOrReadOnly]\<close>: before the handler runs, the
  framework refuses a request whose method is not a safe one and whose user is not
  authenticated, with NotAuthenticated.
\<close>

definition is_authenticated :: "user \<Rightarrow> bool" where
  "is_authenticated u = (case u of AnonymousUser \<Rightarrow> False | User k \<Rightarrow> True)"

definition IsAuthenticatedOrReadOnly :: "request \<Rightarrow> bool" where
  "IsAuthenticatedOrReadOnly req = (req_method req = GET \<or> is_authenticated (req_user req))"

section \<open>Rooms\<close>

text \<open>\<^verbatim>\<open>Rooms.get\<close> (lines 69-72)\<close>

definition Rooms_get :: "store \<Rightarrow> request \<Rightarrow> response result" where
  "Rooms_get st req = (Inr (Response (RoomListData (Room_objects st)) 200), st)"

text \<open>The loop of \<^verbatim>\<open>Rooms.post\<close> (lines 93-95).\<close>

fun attach_each :: "pk \<Rightarrow> int list \<Rightarrow> store \<Rightarrow> unit result" where
  "attach_each k [] st = (Inr (), st)"
| "attach_each k (a_pk # rest) st =
     (case Amenity_get st a_pk of
        Inl e \<Rightarrow> (Inl e, st)
      | Inr amenity \<Rightarrow> attach_each k rest (amenities_add k amenity st))"

text \<open>
  The block under \<^verbatim>\<open>transaction.atomic()\<close> in \<^verbatim>\<open>Rooms.post\<close> (lines 88-97). Saving a
  room whose owner is the anonymous user raises ValueError.
\<close>

definition Rooms_post_block ::
  "request \<Rightarrow> Category \<Rightarrow> store \<Rightarrow> response result" where
  "Rooms_post_block req category st =
     (case req_user req of
        AnonymousUser \<Rightarrow> (Inl ValueError, st)
      | User u \<Rightarrow>
          (let (room, st1) = Room_create (data_fields (req_data req)) u category st;
               amenities = data_amenities (req_data req)
           in case iter amenities of
                Inl e \<Rightarrow> (Inl e, st1)
              | Inr pks \<Rightarrow>
                  (case attach_each (room_pk room) pks st1 of
                     (Inl e, st2) \<Rightarrow> (Inl e, st2)
                   | (Inr u, st2) \<Rightarrow>
                       (Inr (Response (RoomDetailSerializer_data st2 room) 200), st2))))"

text \<open>\<^verbatim>\<open>Rooms.post\<close> (lines 74-101)\<close>

definition Rooms_post :: "validator \<Rightarrow> store \<Rightarrow> request \<Rightarrow> response result" where
  "Rooms_post validate st req =
     (let errors = validate None False (req_data req) in
      if is_valid errors then
        (let c_pk = data_category (req_data req) in
         if \<not> truthy c_pk then (Inl (ParseError ''Category is required.''), st)
         else
           (case Category_get st c_pk of
              Inl DoesNotExist \<Rightarrow> (Inl (ParseError ''Category not found''), st)
            | Inl e \<Rightarrow> (Inl e, st)
            | Inr category \<Rightarrow>
                if category_kind category = CategoryKind_EXPERIENCES
                then (Inl (ParseError ''The category kind should be 'rooms'.''), st)
                else
                  (case atomic (Rooms_post_block req category) st of
                     (Inl e, st') \<Rightarrow> (Inl (ParseError ''Amenity not found''), st')
                   | (Inr resp, st') \<Rightarrow> (Inr resp, st'))))
      else (Inr (Response (Errors errors) 400), st))"

text \<open>The view class: permission check, then the handler of the method.\<close>

definition Rooms_dispatch :: "validator \<Rightarrow> store \<Rightarrow> request \<Rightarrow> response result" where
  "Rooms_dispatch validate st req =
     (if \<not> IsAuthenticatedOrReadOnly req then (Inl NotAuthenticated, st)
      else case req_method req of
             GET \<Rightarrow> Rooms_get st req
           | POST \<Rightarrow> Rooms_post validate st req
           | PUT \<Rightarrow> (Inl MethodNotAllowed, st)
           | DELETE \<Rightarrow> (Inl MethodNotAllowed, st))"

section \<open>RoomDetail\<close>

text \<open>
  \<^verbatim>\<open>RoomDetail.get_object\<close> (lines 109-113): only \<^verbatim>\<open>Room.DoesNotExist\<close> becomes NotFound,
  any other exception of the lookup leaves the view as it is.
\<close>

definition get_object :: "store \<Rightarrow> pk \<Rightarrow> exn + Room" where
  "get_object st k =
     (case Room_get st k of
        Inl DoesNotExist \<Rightarrow> Inl NotFound
      | Inl e \<Rightarrow> Inl e
      | Inr room \<Rightarrow> Inr room)"

text \<open>\<^verbatim>\<open>RoomDetail.get\<close> (lines 115-118)\<close>

definition RoomDetail_get :: "store \<Rightarrow> request \<Rightarrow> pk \<Rightarrow> response result" where
  "RoomDetail_get st req k =
     (case get_object st k of
        Inl e \<Rightarrow> (Inl e, st)
      | Inr room \<Rightarrow> (Inr (Response (RoomDetailSerializer_data st room) 200), st))"

text \<open>
  The loop of \<^verbatim>\<open>RoomDetail.put\<close> (lines 141-142): its body only binds the variable
  \<^verbatim>\<open>amenity\<close>, so what leaves the loop is the amenity resolved last (none when the list
  is empty).
\<close>

fun resolve_each :: "store \<Rightarrow> int list \<Rightarrow> Amenity option \<Rightarrow> exn + Amenity option" where
  "resolve_each st [] amenity = Inr amenity"
| "resolve_each st (a_pk # rest) amenity =
     (case Amenity_get st a_pk of
        Inl e \<Rightarrow> Inl e
      | Inr a \<Rightarrow> resolve_each st rest (Some a))"

text \<open>
  The first half of the block under \<^verbatim>\<open>transaction.atomic()\<close> in \<^verbatim>\<open>RoomDetail.put\<close>
  (lines 129-136): the instance is saved, then saved again with the category when the
  request names one. \<^verbatim>\<open>new_room\<close> and \<^verbatim>\<open>updated_room\<close> are the serializer's one
  instance: each save updates it and returns it.
\<close>

definition RoomDetail_put_save :: "request \<Rightarrow> Room \<Rightarrow> store \<Rightarrow> Room result" where
  "RoomDetail_put_save req room st =
     (let vd = data_fields (req_data req);
          c_pk = data_category (req_data req);
          (new_room, st1) = serializer_update room vd None st
      in if truthy c_pk then
           (case Category_get st1 c_pk of
              Inl e \<Rightarrow> (Inl e, st1)
            | Inr category \<Rightarrow>
                if category_kind category \<noteq> CategoryKind_ROOM
                then (Inl (ParseError ''The category kind should be rooms''), st1)
                else (case serializer_update new_room vd (Some category) st1 of
                        (updated_room, st2) \<Rightarrow> (Inr updated_room, st2)))
         else (case serializer_update new_room vd None st1 of
                 (updated_room, st2) \<Rightarrow> (Inr updated_room, st2)))"

text \<open>
  The second half (lines 138-145). It yields the response of the \<^verbatim>\<open>return\<close> at line 145,
  or nothing when the \<^verbatim>\<open>if\<close> is skipped and the block is left at its end. The call of
  \<^verbatim>\<open>add\<close> (line 143) stands after the loop, not in it.
\<close>

definition RoomDetail_put_amenities ::
  "request \<Rightarrow> Room \<Rightarrow> store \<Rightarrow> response option result" where
  "RoomDetail_put_amenities req updated_room st2 =
     (let amenities = data_amenities (req_data req) in
      if truthy amenities then
        (let st3 = amenities_clear (room_pk updated_room) st2 in
         case iter amenities of
           Inl e \<Rightarrow> (Inl e, st3)
         | Inr pks \<Rightarrow>
             (case resolve_each st3 pks None of
                Inl e \<Rightarrow> (Inl e, st3)
              | Inr None \<Rightarrow> (Inl NameError, st3)
              | Inr (Some amenity) \<Rightarrow>
                  (let st4 = amenities_add (room_pk updated_room) amenity st3
                   in (Inr (Some (Response (RoomDetailSerializer_data st4 updated_room) 200)),
                       st4))))
      else (Inr None, st2))"

definition RoomDetail_put_block ::
  "request \<Rightarrow> Room \<Rightarrow> store \<Rightarrow> response option result" where
  "RoomDetail_put_block req room st =
     (case RoomDetail_put_save req room st of
        (Inl e, st2) \<Rightarrow> (Inl e, st2)
      | (Inr updated_room, st2) \<Rightarrow> RoomDetail_put_amenities req updated_room st2)"

text \<open>\<^verbatim>\<open>RoomDetail.put\<close> (lines 120-151)\<close>

definition RoomDetail_put :: "validator \<Rightarrow> store \<Rightarrow> request \<Rightarrow> pk \<Rightarrow> response result" where
  "RoomDetail_put validate st req k =
     (case get_object st k of
        Inl e \<Rightarrow> (Inl e, st)
      | Inr room \<Rightarrow>
          if User (room_owner room) \<noteq> req_user req then (Inl PermissionDenied, st)
          else
            (let errors = validate (Some room) True (req_data req) in
             if is_valid errors then
               (case atomic (RoomDetail_put_block req room) st of
                  (Inl e, st') \<Rightarrow> (Inl (ParseError ''Amenity not Found''), st')
                | (Inr (Some resp), st') \<Rightarrow> (Inr resp, st')
                | (Inr None, st') \<Rightarrow> (Inr (Response (Errors errors) 200), st'))
             else (Inl NotAuthenticated, st)))"

text \<open>\<^verbatim>\<open>RoomDetail.delete\<close> (lines 153-161)\<close>

definition RoomDetail_delete :: "store \<Rightarrow> request \<Rightarrow> pk \<Rightarrow> response result" where
  "RoomDetail_delete st req k =
     (case get_object st k of
        Inl e \<Rightarrow> (Inl e, st)
      | Inr room \<Rightarrow>
          if User (room_owner room) \<noteq> req_user req then (Inl PermissionDenied, st)
          else (Inr (Response NoData 204), Room_delete room st))"

definition RoomDetail_dispatch ::
  "validator \<Rightarrow> store \<Rightarrow> request \<Rightarrow> pk \<Rightarrow> response result" where
  "RoomDetail_dispatch validate st req k =
     (if \<not> IsAuthenticatedOrReadOnly req then (Inl NotAuthenticated, st)
      else case req_method req of
             GET \<Rightarrow> RoomDetail_get st req k
           | PUT \<Rightarrow> RoomDetail_put validate st req k
           | DELETE \<Rightarrow> RoomDetail_delete st req k
           | POST \<Rightarrow> (Inl MethodNotAllowed, st))"

section \<open>RoomBookings\<close>

text \<open>
  \<^verbatim>\<open>RoomBookings.get_object\<close> (lines 242-246): its bare \<^verbatim>\<open>except\<close> turns every exception
  of the lookup into NotFound.
\<close>

definition RoomBookings_get_object :: "store \<Rightarrow> pk \<Rightarrow> exn + Room" where
  "RoomBookings_get_object st k =
     (case Room_get st k of
        Inl e \<Rightarrow> Inl NotFound
      | Inr room \<Rightarrow> Inr room)"

text \<open>
  \<^verbatim>\<open>RoomBookings.get\<close> (lines 248-253), with the local date \<^verbatim>\<open>now\<close> as an argument. The
  queryset is \<^verbatim>\<open>Booking.objects.filter(...)\<close> with no \<^verbatim>\<open>order_by\<close>: the rows that pass the
  filter, in the order the table yields them.
\<close>

definition upcoming :: "Room \<Rightarrow> date \<Rightarrow> Booking \<Rightarrow> bool" where
  "upcoming room now b =
     (booking_room b = Some (room_pk room) \<and> booking_kind b = BookingKind_ROOM \<and> now < check_in b)"

definition RoomBookings_get :: "store \<Rightarrow> date \<Rightarrow> pk \<Rightarrow> response result" where
  "RoomBookings_get st now k =
     (case RoomBookings_get_object st k of
        Inl e \<Rightarrow> (Inl e, st)
      | Inr room \<Rightarrow>
          (Inr (Response (BookingListData (filter (upcoming room now) (Booking_objects st))) 200),
           st))"

section \<open>Example data\<close>

text \<open>
  A store with one room (owned by user 10, amenities 1 and 2), a category of each kind,
  three amenities and four bookings, and requests built on it; two validators, one that
  accepts every body and one that rejects every body.
\<close>

definition accept_all :: validator where
  "accept_all inst partial d = []"

definition reject_all :: validator where
  "reject_all inst partial d = [''This field is required.'']"

definition ex_room :: Room where
  "ex_room = \<lparr> room_pk = 1, room_owner = 10, room_category = Some 1,
               room_amenities = [1, 2], room_fields = [(''name'', ''Loft'')] \<rparr>"

definition ex_bookings :: "Booking list" where
  "ex_bookings =
     [ \<lparr> booking_pk = 1, booking_room = Some 1, booking_user = 11,
         booking_kind = BookingKind_ROOM, check_in = 20, check_out = 25 \<rparr>,
       \<lparr> booking_pk = 2, booking_room = Some 1, booking_user = 12,
         booking_kind = BookingKind_ROOM, check_in = 12, check_out = 14 \<rparr>,
       \<lparr> booking_pk = 3, booking_room = None, booking_user = 11,
         booking_kind = BookingKind_EXPERIENCE, check_in = 30, check_out = 30 \<rparr>,
       \<lparr> booking_pk = 4, booking_room = Some 1, booking_user = 12,
         booking_kind = BookingKind_ROOM, check_in = 3, check_out = 5 \<rparr> ]"

text \<open>The bookings of the example once room 1 is deleted: none references a room.\<close>

definition ex_bookings_orphaned :: "Booking list" where
  "ex_bookings_orphaned = map (\<lambda>b. b\<lparr> booking_room := None \<rparr>) ex_bookings"

definition ex_store :: store where
  "ex_store =
     \<lparr> Room_objects = [ex_room],
       Category_objects =
         [ \<lparr> category_pk = 1, category_kind = CategoryKind_ROOM \<rparr>,
           \<lparr> category_pk = 2, category_kind = CategoryKind_EXPERIENCES \<rparr> ],
       Amenity_objects =
         [ \<lparr> amenity_pk = 1, amenity_name = ''Wifi'', amenity_description = [] \<rparr>,
           \<lparr> amenity_pk = 2, amenity_name = ''Kitchen'', amenity_description = [] \<rparr>,
           \<lparr> amenity_pk = 3, amenity_name = ''Parking'', amenity_description = [] \<rparr> ],
       Booking_objects = ex_bookings \<rparr>"

definition ex_request :: "http_method \<Rightarrow> user \<Rightarrow> pyval \<Rightarrow> pyval \<Rightarrow> request" where
  "ex_request m u c a =
     \<lparr> req_method = m, req_user = u,
       req_data = \<lparr> data_fields = [(''name'', ''Harbour view'')],
                    data_category = c, data_amenities = a \<rparr>,
       query_params = [] \<rparr>"

text \<open>
  The pagination the specification states for \<^verbatim>\<open>GET /rooms\<close>, in the specification's
  words ("paginated by the caller's query parameter page"), written the way the sibling
  view \<^verbatim>\<open>RoomReviews.get\<close> slices its query (lines 179-183): page \<open>page\<close> of pages of
  \<open>page_size\<close> rows. It is what \<^verbatim>\<open>Rooms.get\<close> is compared with; \<^verbatim>\<open>Rooms.get\<close> does not
  call it.
\<close>

definition spec_page :: "nat \<Rightarrow> nat \<Rightarrow> 'a list \<Rightarrow> 'a list" where
  "spec_page page_size page xs = take page_size (drop ((page - 1) * page_size) xs)"

definition ex_room2 :: Room where
  "ex_room2 = \<lparr> room_pk = 2, room_owner = 11, room_category = Some 1,
                room_amenities = [], room_fields = [(''name'', ''Cabin'')] \<rparr>"

definition ex_page_request :: "string \<Rightarrow> request" where
  "ex_page_request p =
     (ex_request GET AnonymousUser PyNone PyNone)\<lparr> query_params := [(''page'', p)] \<rparr>"

section \<open>Facts about the ORM operations\<close>

lemma fresh_pk_greater: "r \<in> set rs \<Longrightarrow> room_pk r < fresh_pk rs"
  unfolding fresh_pk_def by (induction rs) auto

lemma Amenity_get_pk: "Amenity_get st a = Inr am \<Longrightarrow> amenity_pk am = a"
  unfolding Amenity_get_def by (auto split: option.splits if_splits simp: find_Some_iff)

lemma Amenity_get_same_table:
  "Amenity_objects s = Amenity_objects st \<Longrightarrow> Amenity_get s a = Amenity_get st a"
  by (simp add: Amenity_get_def)

lemma Amenity_get_upd_amenities [simp]:
  "Amenity_get (upd_amenities k f st) a = Amenity_get st a"
  by (simp add: Amenity_get_def upd_amenities_def)

lemma Amenity_get_amenities_add [simp]:
  "Amenity_get (amenities_add k am st) a = Amenity_get st a"
  by (simp add: amenities_add_def)

lemma upd_amenities_twice:
  "upd_amenities k g (upd_amenities k f st) = upd_amenities k (g \<circ> f) st"
  by (simp add: upd_amenities_def)

lemma upd_amenities_id: "upd_amenities k (\<lambda>xs. xs) st = st"
proof -
  have "map (\<lambda>r. if room_pk r = k then r\<lparr>room_amenities := room_amenities r\<rparr> else r)
          (Room_objects st) = Room_objects st"
    by (rule map_idI) simp
  then show ?thesis by (simp add: upd_amenities_def)
qed

lemma set_fold_add_pk: "set (fold add_pk pks xs) = set xs \<union> set pks"
  by (induction pks arbitrary: xs) (auto simp: add_pk_def)

lemma distinct_fold_add_pk: "distinct xs \<Longrightarrow> distinct (fold add_pk pks xs)"
  by (induction pks arbitrary: xs) (auto simp: add_pk_def)

text \<open>The loop of the create path stops at the first key that does not resolve.\<close>

lemma attach_each_fails:
  "a \<in> set pks \<Longrightarrow> Amenity_get st a = Inl e \<Longrightarrow>
   \<exists>e'. fst (attach_each k pks st) = Inl e'"
proof (induction pks arbitrary: st)
  case Nil
  then show ?case by simp
next
  case (Cons x xs)
  show ?case
  proof (cases "Amenity_get st x")
    case (Inl e0)
    then show ?thesis by simp
  next
    case (Inr am)
    with Cons.prems have "x \<noteq> a" by auto
    with Cons.prems have "a \<in> set xs" by auto
    moreover have "Amenity_get (amenities_add k am st) a = Inl e"
      using Cons.prems by simp
    ultimately have "\<exists>e'. fst (attach_each k xs (amenities_add k am st)) = Inl e'"
      by (rule Cons.IH)
    then show ?thesis using Inr by simp
  qed
qed

text \<open>When every key resolves, the loop adds each of them to the relation, in order.\<close>

lemma attach_each_succeeds:
  "\<forall>a\<in>set pks. \<exists>am. Amenity_get st a = Inr am \<Longrightarrow>
   attach_each k pks st = (Inr (), upd_amenities k (fold add_pk pks) st)"
proof (induction pks arbitrary: st)
  case Nil
  then show ?case by (simp add: upd_amenities_id)
next
  case (Cons x xs)
  then obtain am where am: "Amenity_get st x = Inr am" by auto
  then have pk: "amenity_pk am = x" by (rule Amenity_get_pk)
  have step: "amenities_add k am st = upd_amenities k (add_pk x) st"
    by (simp add: amenities_add_def pk)
  have "\<forall>a\<in>set xs. \<exists>am'. Amenity_get (amenities_add k am st) a = Inr am'"
    using Cons.prems by simp
  then have "attach_each k xs (amenities_add k am st) =
      (Inr (), upd_amenities k (fold add_pk xs) (amenities_add k am st))"
    by (rule Cons.IH)
  then show ?case
    by (simp add: am step upd_amenities_twice comp_def)
qed

lemma atomic_Inl: "fst (blk st) = Inl e \<Longrightarrow> atomic blk st = (Inl e, st)"
  by (cases "blk st") (auto simp: atomic_def)

section \<open>Creating a room\<close>

lemma Rooms_post_block_unresolved:
  assumes "req_user req = User u"
    and "data_amenities (req_data req) = PyList pks"
    and "a \<in> set pks" and "Amenity_get st a = Inl e"
  shows "\<exists>e'. fst (Rooms_post_block req category st) = Inl e'"
proof -
  obtain room st1 where c: "Room_create (data_fields (req_data req)) u category st = (room, st1)"
    by (cases "Room_create (data_fields (req_data req)) u category st")
  have "Amenity_objects st1 = Amenity_objects st"
    using c by (auto simp: Room_create_def Let_def)
  then have "Amenity_get st1 a = Amenity_get st a"
    by (rule Amenity_get_same_table)
  then have "Amenity_get st1 a = Inl e"
    using assms(4) by simp
  then have "\<exists>e'. fst (attach_each (room_pk room) pks st1) = Inl e'"
    using assms(3) by (rule attach_each_fails [rotated])
  then obtain e' where "fst (attach_each (room_pk room) pks st1) = Inl e'" by blast
  then have "fst (Rooms_post_block req category st) = Inl e'"
    using assms(1,2) c
    by (cases "attach_each (room_pk room) pks st1") (auto simp: Rooms_post_block_def)
  then show ?thesis by blast
qed

lemma find_append_fresh:
  "\<forall>x\<in>set xs. \<not> P x \<Longrightarrow> find P (xs @ ys) = find P ys"
  by (induction xs) auto

lemma upd_amenities_fresh:
  assumes "room_pk room = fresh_pk (Room_objects st)"
  shows "upd_amenities (room_pk room) f (st\<lparr>Room_objects := Room_objects st @ [room]\<rparr>)
         = st\<lparr>Room_objects := Room_objects st @ [room\<lparr>room_amenities := f (room_amenities room)\<rparr>]\<rparr>"
proof -
  have "map (\<lambda>r. if room_pk r = room_pk room then r\<lparr>room_amenities := f (room_amenities r)\<rparr> else r)
          (Room_objects st) = Room_objects st"
  proof (rule map_idI)
    fix r assume "r \<in> set (Room_objects st)"
    then have "room_pk r < room_pk room"
      using assms by (simp add: fresh_pk_greater)
    then show "(if room_pk r = room_pk room then r\<lparr>room_amenities := f (room_amenities r)\<rparr> else r) = r"
      by simp
  qed
  then show ?thesis by (simp add: upd_amenities_def)
qed

lemma amenities_all_fresh:
  assumes "room_pk room = fresh_pk rs"
  shows "amenities_all (st\<lparr>Room_objects := rs @ [room]\<rparr>) (room_pk room) = room_amenities room"
proof -
  have "\<forall>r\<in>set rs. \<not> room_pk r = room_pk room"
    using assms fresh_pk_greater by fastforce
  then have "find (\<lambda>r. room_pk r = room_pk room) (rs @ [room]) = Some room"
    by (simp add: find_append_fresh)
  then show ?thesis by (simp add: amenities_all_def)
qed

lemma Rooms_post_block_resolved:
  assumes "req_user req = User u"
    and "data_amenities (req_data req) = PyList pks"
    and "\<forall>a\<in>set pks. \<exists>am. Amenity_get st a = Inr am"
  shows "Rooms_post_block req category st =
     (let room = \<lparr> room_pk = fresh_pk (Room_objects st), room_owner = u,
                   room_category = Some (category_pk category),
                   room_amenities = fold add_pk pks [],
                   room_fields = data_fields (req_data req) \<rparr>
      in (Inr (Response (RoomData room) 200), st\<lparr>Room_objects := Room_objects st @ [room]\<rparr>))"
proof -
  define room0 where "room0 = \<lparr> room_pk = fresh_pk (Room_objects st), room_owner = u,
                   room_category = Some (category_pk category),
                   room_amenities = [],
                   room_fields = data_fields (req_data req) \<rparr>"
  define st1 where "st1 = st\<lparr>Room_objects := Room_objects st @ [room0]\<rparr>"
  have pk0: "room_pk room0 = fresh_pk (Room_objects st)" by (simp add: room0_def)
  have c: "Room_create (data_fields (req_data req)) u category st = (room0, st1)"
    by (simp add: Room_create_def room0_def st1_def Let_def)
  have "\<forall>a\<in>set pks. \<exists>am. Amenity_get st1 a = Inr am"
  proof -
    have "Amenity_objects st1 = Amenity_objects st" by (simp add: st1_def)
    then have "Amenity_get st1 a = Amenity_get st a" for a
      by (rule Amenity_get_same_table)
    then show ?thesis using assms(3) by simp
  qed
  then have a: "attach_each (room_pk room0) pks st1
      = (Inr (), upd_amenities (room_pk room0) (fold add_pk pks) st1)"
    by (rule attach_each_succeeds)
  have u: "upd_amenities (room_pk room0) (fold add_pk pks) st1
      = st\<lparr>Room_objects := Room_objects st @ [room0\<lparr>room_amenities := fold add_pk pks []\<rparr>]\<rparr>"
    unfolding st1_def using upd_amenities_fresh [OF pk0, of "fold add_pk pks"]
    by (simp add: room0_def)
  have "amenities_all (st\<lparr>Room_objects := Room_objects st @ [room0\<lparr>room_amenities := fold add_pk pks []\<rparr>]\<rparr>)
          (room_pk (room0\<lparr>room_amenities := fold add_pk pks []\<rparr>))
        = room_amenities (room0\<lparr>room_amenities := fold add_pk pks []\<rparr>)"
    by (rule amenities_all_fresh) (simp add: room0_def)
  then have d: "RoomDetailSerializer_data
          (st\<lparr>Room_objects := Room_objects st @ [room0\<lparr>room_amenities := fold add_pk pks []\<rparr>]\<rparr>) room0
        = RoomData (room0\<lparr>room_amenities := fold add_pk pks []\<rparr>)"
    by (simp add: RoomDetailSerializer_data_def)
  show ?thesis
    using assms(1,2) by (simp add: Rooms_post_block_def c a u d) (simp add: room0_def Let_def)
qed

text \<open>
  Claim C1. A create request that reaches the transaction (an authenticated POST whose
  body passes validation and whose category resolves to a category of kind ROOM) and whose
  amenity list holds a key that resolves to no Amenity fails with the parse error
  "Amenity not found" (status 400, the validation error of the specification), and the
  store afterwards is the store before: the room row inserted inside the transaction and
  the amenities attached before the failing key are gone.
\<close>

theorem create_unresolved_amenity_rolls_back:
  assumes "req_method req = POST" and "req_user req = User u"
    and "is_valid (validate None False (req_data req))"
    and "truthy (data_category (req_data req))"
    and "Category_get st (data_category (req_data req)) = Inr category"
    and "category_kind category = CategoryKind_ROOM"
    and "data_amenities (req_data req) = PyList pks"
    and "a \<in> set pks" and "Amenity_get st a = Inl e"
  shows "Rooms_dispatch validate st req = (Inl (ParseError ''Amenity not found''), st)"
proof -
  obtain e' where "fst (Rooms_post_block req category st) = Inl e'"
    using Rooms_post_block_unresolved [OF assms(2,7,8,9)] by blast
  then have "atomic (Rooms_post_block req category) st = (Inl e', st)"
    by (rule atomic_Inl)
  then have "Rooms_post validate st req = (Inl (ParseError ''Amenity not found''), st)"
    using assms(3,4,5,6) by (simp add: Rooms_post_def)
  then show ?thesis
    using assms(1,2) by (simp add: Rooms_dispatch_def IsAuthenticatedOrReadOnly_def is_authenticated_def)
qed

theorem create_unresolved_amenity_rolls_back_witness:
  "Rooms_dispatch accept_all ex_store (ex_request POST (User 10) (PyInt 1) (PyList [1, 7]))
     = (Inl (ParseError ''Amenity not found''), ex_store)
   \<and> Room_objects ex_store = [ex_room]"
proof -
  let ?req = "ex_request POST (User 10) (PyInt 1) (PyList [1, 7])"
  have "Rooms_dispatch accept_all ex_store ?req = (Inl (ParseError ''Amenity not found''), ex_store)"
  proof (rule create_unresolved_amenity_rolls_back
      [where u = 10 and a = 7 and pks = "[1, 7]" and e = DoesNotExist
         and category = "\<lparr> category_pk = 1, category_kind = CategoryKind_ROOM \<rparr>"])
    show "req_method ?req = POST" by (simp add: ex_request_def)
    show "req_user ?req = User 10" by (simp add: ex_request_def)
    show "is_valid (accept_all None False (req_data ?req))"
      by (simp add: is_valid_def accept_all_def)
    show "truthy (data_category (req_data ?req))" by (simp add: ex_request_def)
    show "Category_get ex_store (data_category (req_data ?req))
            = Inr \<lparr> category_pk = 1, category_kind = CategoryKind_ROOM \<rparr>"
      by (simp add: ex_request_def ex_store_def Category_find_def key_in_range_def)
    show "category_kind \<lparr> category_pk = 1, category_kind = CategoryKind_ROOM \<rparr> = CategoryKind_ROOM"
      by simp
    show "data_amenities (req_data ?req) = PyList [1, 7]" by (simp add: ex_request_def)
    show "(7::int) \<in> set [1, 7]" by simp
    show "Amenity_get ex_store 7 = Inl DoesNotExist"
      by (simp add: Amenity_get_def ex_store_def key_in_range_def)
  qed
  then show ?thesis by (simp add: ex_store_def)
qed

text \<open>
  Claim C4. An authenticated create request whose category resolves to a category of kind
  EXPERIENCES fails with a validation error and leaves the store as it was: a body that
  fails validation is answered with its errors and status 400, a falsy category key with
  the parse error "Category is required.", any other with the parse error about the
  category kind.
\<close>

theorem create_experience_category_rejected:
  assumes "req_method req = POST" and "req_user req = User u"
    and "Category_get st (data_category (req_data req)) = Inr category"
    and "category_kind category = CategoryKind_EXPERIENCES"
  shows "Rooms_dispatch validate st req =
           ((if \<not> is_valid (validate None False (req_data req))
             then Inr (Response (Errors (validate None False (req_data req))) 400)
             else if \<not> truthy (data_category (req_data req))
             then Inl (ParseError ''Category is required.'')
             else Inl (ParseError ''The category kind should be 'rooms'.'')), st)"
  using assms
  by (simp add: Rooms_dispatch_def IsAuthenticatedOrReadOnly_def is_authenticated_def
      Rooms_post_def Let_def)

theorem create_experience_category_rejected_witness:
  "Rooms_dispatch accept_all ex_store (ex_request POST (User 10) (PyInt 2) (PyList [1]))
     = (Inl (ParseError ''The category kind should be 'rooms'.''), ex_store)"
proof -
  let ?req = "ex_request POST (User 10) (PyInt 2) (PyList [1])"
  let ?cat = "\<lparr> category_pk = 2, category_kind = CategoryKind_EXPERIENCES \<rparr>"
  have 1: "req_method ?req = POST" by (simp add: ex_request_def)
  have 2: "req_user ?req = User 10" by (simp add: ex_request_def)
  have 3: "Category_get ex_store (data_category (req_data ?req)) = Inr ?cat"
    by (simp add: ex_request_def ex_store_def Category_find_def key_in_range_def)
  have 4: "category_kind ?cat = CategoryKind_EXPERIENCES" by simp
  have 5: "is_valid (accept_all None False (req_data ?req))"
    by (simp add: is_valid_def accept_all_def)
  have 6: "truthy (data_category (req_data ?req))" by (simp add: ex_request_def)
  show ?thesis
    using create_experience_category_rejected
      [of "ex_request POST (User 10) (PyInt 2) (PyList [1])" 10 ex_store
          "\<lparr> category_pk = 2, category_kind = CategoryKind_EXPERIENCES \<rparr>" accept_all,
       OF 1 2 3 4] 5 6
    by simp
qed

text \<open>
  Claim C5. A create request that reaches the transaction and whose amenity list holds
  only keys that resolve succeeds: one room row is appended, owned by the requester, with
  the resolved category, and the amenities attached to it are exactly the keys of the
  list, each once however often the list repeats it.
\<close>

theorem create_attaches_amenity_set:
  assumes "req_method req = POST" and "req_user req = User u"
    and "is_valid (validate None False (req_data req))"
    and "truthy (data_category (req_data req))"
    and "Category_get st (data_category (req_data req)) = Inr category"
    and "category_kind category = CategoryKind_ROOM"
    and "data_amenities (req_data req) = PyList pks"
    and "\<forall>a\<in>set pks. \<exists>am. Amenity_get st a = Inr am"
  shows "\<exists>room st'.
           Rooms_dispatch validate st req = (Inr (Response (RoomData room) 200), st')
         \<and> Room_objects st' = Room_objects st @ [room]
         \<and> room_owner room = u
         \<and> room_category room = Some (category_pk category)
         \<and> set (room_amenities room) = set pks
         \<and> distinct (room_amenities room)
         \<and> length (room_amenities room) = card (set pks)"
proof -
  define room where "room = \<lparr> room_pk = fresh_pk (Room_objects st), room_owner = u,
                   room_category = Some (category_pk category),
                   room_amenities = fold add_pk pks [],
                   room_fields = data_fields (req_data req) \<rparr>"
  define st' where "st' = st\<lparr>Room_objects := Room_objects st @ [room]\<rparr>"
  have "Rooms_post_block req category st = (Inr (Response (RoomData room) 200), st')"
    using Rooms_post_block_resolved [OF assms(2,7,8), of category]
    by (simp add: room_def st'_def Let_def)
  then have "atomic (Rooms_post_block req category) st = (Inr (Response (RoomData room) 200), st')"
    by (simp add: atomic_def)
  then have "Rooms_post validate st req = (Inr (Response (RoomData room) 200), st')"
    using assms(3,4,5,6) by (simp add: Rooms_post_def)
  then have r: "Rooms_dispatch validate st req = (Inr (Response (RoomData room) 200), st')"
    using assms(1,2) by (simp add: Rooms_dispatch_def IsAuthenticatedOrReadOnly_def is_authenticated_def)
  have s: "set (room_amenities room) = set pks"
    by (simp add: room_def set_fold_add_pk)
  have d: "distinct (room_amenities room)"
    by (simp add: room_def distinct_fold_add_pk)
  have l: "length (room_amenities room) = card (set pks)"
    using s d distinct_card by fastforce
  have "Room_objects st' = Room_objects st @ [room]" by (simp add: st'_def)
  moreover have "room_owner room = u" "room_category room = Some (category_pk category)"
    by (simp_all add: room_def)
  ultimately show ?thesis using r s d l by blast
qed

theorem create_attaches_amenity_set_witness:
  "\<exists>room st'.
     Rooms_dispatch accept_all ex_store (ex_request POST (User 10) (PyInt 1) (PyList [3, 1, 3]))
       = (Inr (Response (RoomData room) 200), st')
     \<and> Room_objects st' = [ex_room, room]
     \<and> set (room_amenities room) = {1, 3}
     \<and> length (room_amenities room) = 2"
proof -
  let ?req = "ex_request POST (User 10) (PyInt 1) (PyList [3, 1, 3])"
  let ?cat = "\<lparr> category_pk = 1, category_kind = CategoryKind_ROOM \<rparr>"
  have 1: "req_method ?req = POST" by (simp add: ex_request_def)
  have 2: "req_user ?req = User 10" by (simp add: ex_request_def)
  have 3: "is_valid (accept_all None False (req_data ?req))"
    by (simp add: is_valid_def accept_all_def)
  have 4: "truthy (data_category (req_data ?req))" by (simp add: ex_request_def)
  have 5: "Category_get ex_store (data_category (req_data ?req)) = Inr ?cat"
    by (simp add: ex_request_def ex_store_def Category_find_def key_in_range_def)
  have 6: "category_kind ?cat = CategoryKind_ROOM" by simp
  have 7: "data_amenities (req_data ?req) = PyList [3, 1, 3]" by (simp add: ex_request_def)
  have 8: "\<forall>a\<in>set [3, 1, 3]. \<exists>am. Amenity_get ex_store a = Inr am"
    by (simp add: Amenity_get_def ex_store_def key_in_range_def)
  have c: "card (set [3, 1, 3::int]) = 2" by (simp add: card_insert_if)
  show ?thesis
    using create_attaches_amenity_set
      [of "ex_request POST (User 10) (PyInt 1) (PyList [3, 1, 3])" 10 accept_all ex_store
          "\<lparr> category_pk = 1, category_kind = CategoryKind_ROOM \<rparr>" "[3, 1, 3]",
       OF 1 2 3 4 5 6 7 8] c
    by (auto simp: ex_store_def)
qed

text \<open>
  Claim C10. A create request that reaches the transaction and whose body has no amenity
  list (the key is absent or null, or its value is a boolean or a number, which cannot be
  iterated) fails with the parse error "Amenity not found", and the store afterwards is
  the store before: the handler around the transaction reports every exception raised
  inside it with that message.
\<close>

theorem create_without_amenities_fails:
  assumes "req_method req = POST" and "req_user req = User u"
    and "is_valid (validate None False (req_data req))"
    and "truthy (data_category (req_data req))"
    and "Category_get st (data_category (req_data req)) = Inr category"
    and "category_kind category = CategoryKind_ROOM"
    and "data_amenities (req_data req) = PyNone
         \<or> (\<exists>b. data_amenities (req_data req) = PyBool b)
         \<or> (\<exists>n. data_amenities (req_data req) = PyInt n)"
  shows "Rooms_dispatch validate st req = (Inl (ParseError ''Amenity not found''), st)"
proof -
  have "iter (data_amenities (req_data req)) = Inl TypeError"
    using assms(7) by auto
  then have "fst (Rooms_post_block req category st) = Inl TypeError"
    using assms(2) by (simp add: Rooms_post_block_def Room_create_def Let_def)
  then have "atomic (Rooms_post_block req category) st = (Inl TypeError, st)"
    by (rule atomic_Inl)
  then have "Rooms_post validate st req = (Inl (ParseError ''Amenity not found''), st)"
    using assms(3,4,5,6) by (simp add: Rooms_post_def)
  then show ?thesis
    using assms(1,2) by (simp add: Rooms_dispatch_def IsAuthenticatedOrReadOnly_def is_authenticated_def)
qed

theorem create_without_amenities_fails_witness:
  "Rooms_dispatch accept_all ex_store (ex_request POST (User 10) (PyInt 1) PyNone)
     = (Inl (ParseError ''Amenity not found''), ex_store)
   \<and> Rooms_dispatch accept_all ex_store (ex_request POST (User 10) (PyInt 1) (PyInt 3))
     = (Inl (ParseError ''Amenity not found''), ex_store)"
proof -
  let ?cat = "\<lparr> category_pk = 1, category_kind = CategoryKind_ROOM \<rparr>"
  have a: "Rooms_dispatch accept_all ex_store (ex_request POST (User 10) (PyInt 1) PyNone)
      = (Inl (ParseError ''Amenity not found''), ex_store)"
    by (rule create_without_amenities_fails [where u = 10 and category = ?cat])
       (simp_all add: ex_request_def ex_store_def Category_find_def key_in_range_def is_valid_def accept_all_def)
  have b: "Rooms_dispatch accept_all ex_store (ex_request POST (User 10) (PyInt 1) (PyInt 3))
      = (Inl (ParseError ''Amenity not found''), ex_store)"
    by (rule create_without_amenities_fails [where u = 10 and category = ?cat])
       (simp_all add: ex_request_def ex_store_def Category_find_def key_in_range_def is_valid_def accept_all_def)
  show ?thesis using a b by simp
qed

section \<open>Updating and deleting a room\<close>

lemma atomic_failure_store: "atomic blk st = (Inl e, st') \<Longrightarrow> st' = st"
  by (cases "blk st") (auto simp: atomic_def split: sum.splits)

lemma Room_get_missing:
  "key_in_range k \<Longrightarrow> k \<notin> room_pk ` set (Room_objects st) \<Longrightarrow>
   Room_get st k = Inl DoesNotExist"
  by (auto simp: Room_get_def find_None_iff split: option.splits)

lemma Room_get_out_of_range: "\<not> key_in_range k \<Longrightarrow> Room_get st k = Inl OverflowError"
  by (simp add: Room_get_def)

lemma Room_get_pk: "Room_get st k = Inr room \<Longrightarrow> room_pk room = k \<and> room \<in> set (Room_objects st)"
  unfolding Room_get_def by (auto split: option.splits if_splits simp: find_Some_iff)

lemma RoomDetail_put_failure_store:
  assumes "RoomDetail_put validate st req k = (Inl e, st')"
  shows "st' = st"
proof (cases "get_object st k")
  case (Inl x)
  then show ?thesis using assms by (simp add: RoomDetail_put_def)
next
  case (Inr room)
  show ?thesis
  proof (cases "User (room_owner room) \<noteq> req_user req
               \<or> \<not> is_valid (validate (Some room) True (req_data req))")
    case True
    then show ?thesis using assms Inr by (auto simp: RoomDetail_put_def split: if_splits)
  next
    case False
    obtain r s where a: "atomic (RoomDetail_put_block req room) st = (r, s)"
      by (cases "atomic (RoomDetail_put_block req room) st")
    show ?thesis
    proof (cases r)
      case (Inl x)
      then have "s = st" using a atomic_failure_store by blast
      then show ?thesis using assms Inr False a Inl by (simp add: RoomDetail_put_def)
    next
      case (Inr v)
      then show ?thesis using assms \<open>get_object st k = Inr room\<close> False a
        by (cases v) (simp_all add: RoomDetail_put_def)
    qed
  qed
qed

lemma RoomDetail_delete_failure_store:
  "RoomDetail_delete st req k = (Inl e, st') \<Longrightarrow> st' = st"
  by (auto simp: RoomDetail_delete_def split: sum.splits if_splits)

lemma RoomDetail_put_success_owner:
  "RoomDetail_put validate st req k = (Inr resp, st') \<Longrightarrow>
   \<exists>room. Room_get st k = Inr room \<and> req_user req = User (room_owner room)"
  by (auto simp: RoomDetail_put_def get_object_def split: sum.splits exn.splits if_splits)

lemma RoomDetail_delete_success_owner:
  "RoomDetail_delete st req k = (Inr resp, st') \<Longrightarrow>
   \<exists>room. Room_get st k = Inr room \<and> req_user req = User (room_owner room)"
  by (auto simp: RoomDetail_delete_def get_object_def split: sum.splits exn.splits if_splits)

text \<open>
  A key outside the range of the key column: the lookup raises OverflowError, which
  \<^verbatim>\<open>RoomDetail.get_object\<close> does not catch; the store is unchanged.
\<close>

lemma RoomDetail_key_out_of_range:
  assumes "req_method req = PUT \<or> req_method req = DELETE"
    and "req_user req = User u" and "\<not> key_in_range k"
  shows "RoomDetail_dispatch validate st req k = (Inl OverflowError, st)"
proof -
  have "get_object st k = Inl OverflowError"
    using assms(3) by (simp add: get_object_def Room_get_out_of_range)
  then show ?thesis
    using assms(1,2)
    by (auto simp: RoomDetail_dispatch_def IsAuthenticatedOrReadOnly_def is_authenticated_def
        RoomDetail_put_def RoomDetail_delete_def)
qed

lemma ex_Room_get: "Room_get ex_store 1 = Inr ex_room"
  by (simp add: Room_get_def ex_store_def ex_room_def key_in_range_def)

text \<open>
  Claim C6. For an update (PUT) or a delete (DELETE) of a room: an anonymous requester is
  refused with NotAuthenticated; an authenticated requester naming a key no room has (a
  key of the range of the key column) gets NotFound; an authenticated requester who is not
  the owner of the room gets PermissionDenied; whenever the request fails, the store afterwards is the store before;
  and when it succeeds, the room exists and the requester is its owner.
\<close>

theorem owner_only_update_delete:
  assumes "req_method req = PUT \<or> req_method req = DELETE"
  shows "(req_user req = AnonymousUser \<longrightarrow>
            RoomDetail_dispatch validate st req k = (Inl NotAuthenticated, st))
       \<and> (req_user req = User u \<and> key_in_range k \<and> k \<notin> room_pk ` set (Room_objects st) \<longrightarrow>
            RoomDetail_dispatch validate st req k = (Inl NotFound, st))
       \<and> (req_user req = User u \<and> Room_get st k = Inr room \<and> room_owner room \<noteq> u \<longrightarrow>
            RoomDetail_dispatch validate st req k = (Inl PermissionDenied, st))
       \<and> (RoomDetail_dispatch validate st req k = (Inl e, st') \<longrightarrow> st' = st)
       \<and> (RoomDetail_dispatch validate st req k = (Inr resp, st') \<longrightarrow>
            (\<exists>r. Room_get st k = Inr r \<and> req_user req = User (room_owner r)))"
proof (intro conjI impI)
  assume "req_user req = AnonymousUser"
  then show "RoomDetail_dispatch validate st req k = (Inl NotAuthenticated, st)"
    using assms
    by (auto simp: RoomDetail_dispatch_def IsAuthenticatedOrReadOnly_def is_authenticated_def)
next
  assume a: "req_user req = User u \<and> key_in_range k \<and> k \<notin> room_pk ` set (Room_objects st)"
  then have "get_object st k = Inl NotFound"
    by (simp add: get_object_def Room_get_missing)
  then show "RoomDetail_dispatch validate st req k = (Inl NotFound, st)"
    using assms a
    by (auto simp: RoomDetail_dispatch_def IsAuthenticatedOrReadOnly_def is_authenticated_def
        RoomDetail_put_def RoomDetail_delete_def)
next
  assume a: "req_user req = User u \<and> Room_get st k = Inr room \<and> room_owner room \<noteq> u"
  then have "get_object st k = Inr room" by (simp add: get_object_def)
  then show "RoomDetail_dispatch validate st req k = (Inl PermissionDenied, st)"
    using assms a
    by (auto simp: RoomDetail_dispatch_def IsAuthenticatedOrReadOnly_def is_authenticated_def
        RoomDetail_put_def RoomDetail_delete_def)
next
  assume "RoomDetail_dispatch validate st req k = (Inl e, st')"
  then show "st' = st"
    using assms RoomDetail_put_failure_store RoomDetail_delete_failure_store
    by (auto simp: RoomDetail_dispatch_def split: if_splits)
next
  assume "RoomDetail_dispatch validate st req k = (Inr resp, st')"
  then show "\<exists>r. Room_get st k = Inr r \<and> req_user req = User (room_owner r)"
    using assms RoomDetail_put_success_owner RoomDetail_delete_success_owner
    by (auto simp: RoomDetail_dispatch_def split: if_splits)
qed

theorem owner_only_update_delete_witness:
  "RoomDetail_dispatch accept_all ex_store (ex_request PUT AnonymousUser PyNone PyNone) 1
     = (Inl NotAuthenticated, ex_store)
   \<and> RoomDetail_dispatch accept_all ex_store (ex_request DELETE (User 10) PyNone PyNone) 99
     = (Inl NotFound, ex_store)
   \<and> RoomDetail_dispatch accept_all ex_store (ex_request DELETE (User 11) PyNone PyNone) 1
     = (Inl PermissionDenied, ex_store)
   \<and> RoomDetail_dispatch accept_all ex_store (ex_request PUT (User 11) PyNone PyNone) 1
     = (Inl PermissionDenied, ex_store)
   \<and> RoomDetail_dispatch accept_all ex_store (ex_request DELETE (User 10) PyNone PyNone) 1
     = (Inr (Response NoData 204),
        ex_store\<lparr>Room_objects := [], Booking_objects := ex_bookings_orphaned\<rparr>)
   \<and> (\<exists>r. Room_get ex_store 1 = Inr r \<and> User 10 = User (room_owner r))"
proof -
  have m: "req_method (ex_request PUT u c a) = PUT \<or> req_method (ex_request PUT u c a) = DELETE"
    "req_method (ex_request DELETE u c a) = PUT \<or> req_method (ex_request DELETE u c a) = DELETE"
    for u c a
    by (simp_all add: ex_request_def)
  have u: "req_user (ex_request mth usr c a) = usr" for mth usr c a
    by (simp add: ex_request_def)
  have missing: "key_in_range 99 \<and> (99::int) \<notin> room_pk ` set (Room_objects ex_store)"
    by (simp add: ex_store_def ex_room_def key_in_range_def)
  have other: "room_owner ex_room \<noteq> 11" by (simp add: ex_room_def)
  have del: "RoomDetail_dispatch accept_all ex_store (ex_request DELETE (User 10) PyNone PyNone) 1
     = (Inr (Response NoData 204),
        ex_store\<lparr>Room_objects := [], Booking_objects := ex_bookings_orphaned\<rparr>)"
    by (simp add: RoomDetail_dispatch_def IsAuthenticatedOrReadOnly_def is_authenticated_def
        RoomDetail_delete_def get_object_def Room_get_def Room_delete_def ex_store_def
        ex_room_def ex_request_def ex_bookings_def ex_bookings_orphaned_def key_in_range_def)
  note t1 = owner_only_update_delete
    [where req = "ex_request PUT AnonymousUser PyNone PyNone" and validate = accept_all
       and st = ex_store and k = 1, OF m(1)]
  note t2 = owner_only_update_delete
    [where req = "ex_request DELETE (User 10) PyNone PyNone" and validate = accept_all
       and st = ex_store and k = 99 and u = 10, OF m(2)]
  note t3 = owner_only_update_delete
    [where req = "ex_request DELETE (User 11) PyNone PyNone" and validate = accept_all
       and st = ex_store and k = 1 and u = 11 and room = ex_room, OF m(2)]
  note t4 = owner_only_update_delete
    [where req = "ex_request PUT (User 11) PyNone PyNone" and validate = accept_all
       and st = ex_store and k = 1 and u = 11 and room = ex_room, OF m(1)]
  note t5 = owner_only_update_delete
    [where req = "ex_request DELETE (User 10) PyNone PyNone" and validate = accept_all
       and st = ex_store and k = 1 and resp = "Response NoData 204"
       and st' = "ex_store\<lparr>Room_objects := [], Booking_objects := ex_bookings_orphaned\<rparr>",
       OF m(2)]
  show ?thesis
    using t1 t2 t3 t4 t5 u missing other ex_Room_get del by simp
qed

text \<open>
  Claim C8. What the code does where the claim expects a validation failure: a PUT by the
  owner of the room whose body fails validation raises NotAuthenticated (line 151), and
  the store is unchanged.
\<close>

theorem update_invalid_body_raises_not_authenticated:
  assumes "req_method req = PUT" and "Room_get st k = Inr room"
    and "req_user req = User (room_owner room)"
    and "\<not> is_valid (validate (Some room) True (req_data req))"
  shows "RoomDetail_dispatch validate st req k = (Inl NotAuthenticated, st)"
  using assms
  by (simp add: RoomDetail_dispatch_def IsAuthenticatedOrReadOnly_def is_authenticated_def
      RoomDetail_put_def get_object_def)

theorem update_invalid_body_raises_not_authenticated_witness:
  "RoomDetail_dispatch reject_all ex_store (ex_request PUT (User 10) PyNone PyNone) 1
     = (Inl NotAuthenticated, ex_store)"
proof -
  let ?req = "ex_request PUT (User 10) PyNone PyNone"
  have 1: "req_method ?req = PUT" by (simp add: ex_request_def)
  have 2: "Room_get ex_store 1 = Inr ex_room"
    by (simp add: Room_get_def ex_store_def ex_room_def key_in_range_def)
  have 3: "req_user ?req = User (room_owner ex_room)" by (simp add: ex_request_def ex_room_def)
  have 4: "\<not> is_valid (reject_all (Some ex_room) True (req_data ?req))"
    by (simp add: is_valid_def reject_all_def)
  show ?thesis
    using update_invalid_body_raises_not_authenticated
      [of "ex_request PUT (User 10) PyNone PyNone" ex_store 1 ex_room reject_all, OF 1 2 3 4]
    by simp
qed

lemma serializer_update_keeps:
  assumes "serializer_update inst vd cat st = (r, s)"
  shows "room_pk r = room_pk inst"
    and "Amenity_objects s = Amenity_objects st"
    and "Category_objects s = Category_objects st"
    and "room_pk ` set (Room_objects s) = room_pk ` set (Room_objects st)"
proof -
  show "room_pk r = room_pk inst"
    using assms by (auto simp: serializer_update_def Let_def split: option.splits)
  show "Amenity_objects s = Amenity_objects st"
    using assms by (auto simp: serializer_update_def Let_def Room_save_def)
  show "Category_objects s = Category_objects st"
    using assms by (auto simp: serializer_update_def Let_def Room_save_def)
  have "map room_pk (Room_objects (Room_save x st)) = map room_pk (Room_objects st)" for x
    by (simp add: Room_save_def)
  then have "set (map room_pk (Room_objects (Room_save x st))) = set (map room_pk (Room_objects st))" for x
    by simp
  then have "room_pk ` set (Room_objects (Room_save x st)) = room_pk ` set (Room_objects st)" for x
    by simp
  then show "room_pk ` set (Room_objects s) = room_pk ` set (Room_objects st)"
    using assms by (auto simp: serializer_update_def Let_def)
qed

lemma Category_get_cong:
  "Category_objects s = Category_objects st \<Longrightarrow> Category_get s c = Category_get st c"
  by (cases c) (simp_all add: Category_find_def)

text \<open>With a falsy or a valid ROOM category the first half succeeds.\<close>

lemma RoomDetail_put_save_succeeds:
  assumes "\<not> truthy (data_category (req_data req))
           \<or> (\<exists>c. Category_get st (data_category (req_data req)) = Inr c
                  \<and> category_kind c = CategoryKind_ROOM)"
  shows "\<exists>r s. RoomDetail_put_save req room st = (Inr r, s)
           \<and> room_pk r = room_pk room
           \<and> Amenity_objects s = Amenity_objects st
           \<and> room_pk ` set (Room_objects s) = room_pk ` set (Room_objects st)"
proof -
  let ?vd = "data_fields (req_data req)"
  obtain r1 s1 where u1: "serializer_update room ?vd None st = (r1, s1)"
    by (cases "serializer_update room ?vd None st")
  note k1 = serializer_update_keeps [OF u1]
  show ?thesis
  proof (cases "truthy (data_category (req_data req))")
    case False
    obtain r2 s2 where u2: "serializer_update r1 ?vd None s1 = (r2, s2)"
      by (cases "serializer_update r1 ?vd None s1")
    note k2 = serializer_update_keeps [OF u2]
    have "RoomDetail_put_save req room st = (Inr r2, s2)"
      using False u1 u2 by (simp add: RoomDetail_put_save_def)
    moreover have "room_pk r2 = room_pk room" using k1(1) k2(1) by simp
    moreover have "Amenity_objects s2 = Amenity_objects st" using k1(2) k2(2) by simp
    moreover have "room_pk ` set (Room_objects s2) = room_pk ` set (Room_objects st)"
      using k1(4) k2(4) by (rule_tac trans)
    ultimately show ?thesis by blast
  next
    case True
    then obtain c where c: "Category_get st (data_category (req_data req)) = Inr c"
      "category_kind c = CategoryKind_ROOM" using assms by auto
    have c1: "Category_get s1 (data_category (req_data req)) = Inr c"
      using c(1) Category_get_cong [OF k1(3)] by simp
    obtain r2 s2 where u2: "serializer_update r1 ?vd (Some c) s1 = (r2, s2)"
      by (cases "serializer_update r1 ?vd (Some c) s1")
    note k2 = serializer_update_keeps [OF u2]
    have "RoomDetail_put_save req room st = (Inr r2, s2)"
      using True u1 u2 c1 c(2) by (simp add: RoomDetail_put_save_def)
    moreover have "room_pk r2 = room_pk room" using k1(1) k2(1) by simp
    moreover have "Amenity_objects s2 = Amenity_objects st" using k1(2) k2(2) by simp
    moreover have "room_pk ` set (Room_objects s2) = room_pk ` set (Room_objects st)"
      using k1(4) k2(4) by (rule_tac trans)
    ultimately show ?thesis by blast
  qed
qed

text \<open>
  Claim C3. What the code returns where the claim expects the updated room: a successful
  PUT by the owner whose body has no amenity list (or an empty one) leaves the
  transaction block at its end, and the \<^verbatim>\<open>else\<close> of the \<^verbatim>\<open>try\<close> (line 149) answers with
  the serializer's errors, which are empty, under status 200.
\<close>

theorem update_without_amenities_returns_errors:
  assumes "req_method req = PUT" and "Room_get st k = Inr room"
    and "req_user req = User (room_owner room)"
    and "is_valid (validate (Some room) True (req_data req))"
    and "\<not> truthy (data_category (req_data req))
           \<or> (\<exists>c. Category_get st (data_category (req_data req)) = Inr c
                  \<and> category_kind c = CategoryKind_ROOM)"
    and "\<not> truthy (data_amenities (req_data req))"
  shows "fst (RoomDetail_dispatch validate st req k) = Inr (Response (Errors []) 200)"
proof -
  obtain r s where p: "RoomDetail_put_save req room st = (Inr r, s)"
    using RoomDetail_put_save_succeeds [OF assms(5)] by blast
  have "RoomDetail_put_block req room st = (Inr None, s)"
    using p assms(6) by (simp add: RoomDetail_put_block_def RoomDetail_put_amenities_def)
  then have "atomic (RoomDetail_put_block req room) st = (Inr None, s)"
    by (simp add: atomic_def)
  moreover have "validate (Some room) True (req_data req) = []"
    using assms(4) by (simp add: is_valid_def)
  ultimately have "RoomDetail_put validate st req k = (Inr (Response (Errors []) 200), s)"
    using assms(2,3,4) by (simp add: RoomDetail_put_def get_object_def)
  then show ?thesis
    using assms(1,3)
    by (simp add: RoomDetail_dispatch_def IsAuthenticatedOrReadOnly_def is_authenticated_def)
qed

theorem update_without_amenities_returns_errors_witness:
  "fst (RoomDetail_dispatch accept_all ex_store (ex_request PUT (User 10) PyNone PyNone) 1)
     = Inr (Response (Errors []) 200)"
proof -
  let ?req = "ex_request PUT (User 10) PyNone PyNone"
  have 1: "req_method ?req = PUT" by (simp add: ex_request_def)
  have 3: "req_user ?req = User (room_owner ex_room)" by (simp add: ex_request_def ex_room_def)
  have 4: "is_valid (accept_all (Some ex_room) True (req_data ?req))"
    by (simp add: is_valid_def accept_all_def)
  have 5: "\<not> truthy (data_category (req_data ?req))
           \<or> (\<exists>c. Category_get ex_store (data_category (req_data ?req)) = Inr c
                  \<and> category_kind c = CategoryKind_ROOM)"
    by (simp add: ex_request_def)
  have 6: "\<not> truthy (data_amenities (req_data ?req))" by (simp add: ex_request_def)
  show ?thesis
    using update_without_amenities_returns_errors
      [of "ex_request PUT (User 10) PyNone PyNone" ex_store 1 ex_room accept_all,
       OF 1 ex_Room_get 3 4 5 6]
    by simp
qed

text \<open>The loop of the update path yields the amenity of the last key.\<close>

lemma resolve_each_last:
  "\<forall>a\<in>set pks. \<exists>am. Amenity_get st a = Inr am \<Longrightarrow> pks \<noteq> [] \<Longrightarrow>
   \<exists>am. resolve_each st pks cur = Inr (Some am) \<and> amenity_pk am = last pks"
proof (induction pks arbitrary: cur)
  case Nil
  then show ?case by simp
next
  case (Cons x xs)
  then obtain am where am: "Amenity_get st x = Inr am" by auto
  show ?case
  proof (cases "xs = []")
    case True
    then show ?thesis using am Amenity_get_pk [OF am] by simp
  next
    case False
    then have "\<exists>am'. resolve_each st xs (Some am) = Inr (Some am') \<and> amenity_pk am' = last xs"
      using Cons.IH Cons.prems(1) by simp
    then show ?thesis using am False by simp
  qed
qed

lemma find_map_pk:
  "(\<And>r. room_pk (f r) = room_pk r) \<Longrightarrow>
   find (\<lambda>r. room_pk r = k) (map f rs) = map_option f (find (\<lambda>r. room_pk r = k) rs)"
  by (induction rs) auto

lemma amenities_all_upd:
  "amenities_all (upd_amenities k f st) k =
     (case find (\<lambda>r. room_pk r = k) (Room_objects st) of None \<Rightarrow> [] | Some r \<Rightarrow> f (room_amenities r))"
proof -
  have "find (\<lambda>r. room_pk r = k)
          (map (\<lambda>r. if room_pk r = k then r\<lparr>room_amenities := f (room_amenities r)\<rparr> else r)
             (Room_objects st))
        = map_option (\<lambda>r. if room_pk r = k then r\<lparr>room_amenities := f (room_amenities r)\<rparr> else r)
            (find (\<lambda>r. room_pk r = k) (Room_objects st))"
    by (rule find_map_pk) simp
  then have m: "find (\<lambda>r. room_pk r = k) (Room_objects (upd_amenities k f st))
        = map_option (\<lambda>r. if room_pk r = k then r\<lparr>room_amenities := f (room_amenities r)\<rparr> else r)
            (find (\<lambda>r. room_pk r = k) (Room_objects st))"
    by (simp add: upd_amenities_def)
  show ?thesis
  proof (cases "find (\<lambda>r. room_pk r = k) (Room_objects st)")
    case None
    then show ?thesis using m by (simp add: amenities_all_def)
  next
    case (Some r)
    then have "room_pk r = k" by (auto simp: find_Some_iff)
    then show ?thesis using m Some by (simp add: amenities_all_def)
  qed
qed

lemma amenities_all_clear_add:
  assumes "k \<in> room_pk ` set (Room_objects st)"
  shows "amenities_all (amenities_add k am (amenities_clear k st)) k = [amenity_pk am]"
proof -
  have "find (\<lambda>r. room_pk r = k) (Room_objects st) \<noteq> None"
    using assms by (auto simp: find_None_iff)
  then show ?thesis
    by (auto simp: amenities_add_def amenities_clear_def upd_amenities_twice amenities_all_upd
        add_pk_def)
qed

text \<open>
  After a successful update with a non-empty amenity list whose keys all resolve, the room
  has one amenity: the last key of the list.
\<close>

lemma update_attaches_last_amenity_only:
  assumes "req_method req = PUT" and "Room_get st k = Inr room"
    and "req_user req = User (room_owner room)"
    and "is_valid (validate (Some room) True (req_data req))"
    and "\<not> truthy (data_category (req_data req))
           \<or> (\<exists>c. Category_get st (data_category (req_data req)) = Inr c
                  \<and> category_kind c = CategoryKind_ROOM)"
    and "data_amenities (req_data req) = PyList pks" and "pks \<noteq> []"
    and "\<forall>a\<in>set pks. \<exists>am. Amenity_get st a = Inr am"
  shows "\<exists>resp st'. RoomDetail_dispatch validate st req k = (Inr resp, st')
           \<and> amenities_all st' k = [last pks]"
proof -
  have pk: "room_pk room = k" and mem: "room \<in> set (Room_objects st)"
    using Room_get_pk [OF assms(2)] by simp_all
  obtain r s where p: "RoomDetail_put_save req room st = (Inr r, s)"
    and rk: "room_pk r = room_pk room"
    and am: "Amenity_objects s = Amenity_objects st"
    and ks: "room_pk ` set (Room_objects s) = room_pk ` set (Room_objects st)"
    using RoomDetail_put_save_succeeds [OF assms(5)] by blast
  let ?s3 = "amenities_clear k s"
  have "Amenity_get ?s3 a = Amenity_get st a" for a
    using am by (simp add: amenities_clear_def Amenity_get_def upd_amenities_def)
  then have "\<forall>a\<in>set pks. \<exists>am. Amenity_get ?s3 a = Inr am"
    using assms(8) by simp
  then obtain a where a: "resolve_each ?s3 pks None = Inr (Some a)" "amenity_pk a = last pks"
    using resolve_each_last [OF _ assms(7)] by blast
  let ?s4 = "amenities_add k a ?s3"
  have "k \<in> room_pk ` set (Room_objects s)" using ks pk mem by auto
  then have final: "amenities_all ?s4 k = [last pks]"
    using amenities_all_clear_add a(2) by simp
  have "RoomDetail_put_amenities req r s
          = (Inr (Some (Response (RoomDetailSerializer_data ?s4 r) 200)), ?s4)"
    using assms(6,7) a(1) rk pk by (simp add: RoomDetail_put_amenities_def Let_def)
  then have "RoomDetail_put_block req room st
          = (Inr (Some (Response (RoomDetailSerializer_data ?s4 r) 200)), ?s4)"
    using p by (simp add: RoomDetail_put_block_def)
  then have "atomic (RoomDetail_put_block req room) st
          = (Inr (Some (Response (RoomDetailSerializer_data ?s4 r) 200)), ?s4)"
    by (simp add: atomic_def)
  then have "RoomDetail_put validate st req k
          = (Inr (Response (RoomDetailSerializer_data ?s4 r) 200), ?s4)"
    using assms(2,3,4) by (simp add: RoomDetail_put_def get_object_def)
  then have "RoomDetail_dispatch validate st req k
          = (Inr (Response (RoomDetailSerializer_data ?s4 r) 200), ?s4)"
    using assms(1,3)
    by (simp add: RoomDetail_dispatch_def IsAuthenticatedOrReadOnly_def is_authenticated_def)
  then show ?thesis using final by blast
qed

text \<open>
  Claim C2. What the code does where the claim expects the set {2, 3}: the room of the
  example store has the amenities 1 and 2; after its owner updates it with the amenity
  list [2, 3] it has the amenity 3 alone.
\<close>

theorem update_replaces_amenities_by_last_only:
  "amenities_all ex_store 1 = [1, 2]
   \<and> amenities_all
        (snd (RoomDetail_dispatch accept_all ex_store
               (ex_request PUT (User 10) PyNone (PyList [2, 3])) 1)) 1 = [3]"
  by (simp add: RoomDetail_dispatch_def IsAuthenticatedOrReadOnly_def is_authenticated_def
      RoomDetail_put_def get_object_def Room_get_def ex_store_def ex_room_def ex_request_def
      is_valid_def accept_all_def atomic_def RoomDetail_put_block_def RoomDetail_put_save_def
      RoomDetail_put_amenities_def serializer_update_def Room_save_def set_attrs_def
      amenities_clear_def amenities_add_def upd_amenities_def add_pk_def Amenity_get_def
      key_in_range_def amenities_all_def RoomDetailSerializer_data_def Let_def)

section \<open>Listing bookings and rooms\<close>

text \<open>
  Claim C7, as amended. For a room that exists, the view answers with exactly the
  bookings of the table whose room is that room, whose kind is ROOM and whose check-in is
  after the given date, each as often as the table holds it and in the order of the
  table; no order by check-in is imposed.
\<close>

theorem upcoming_bookings_filtered_in_store_order:
  assumes "Room_get st k = Inr room"
  shows "\<exists>bs. RoomBookings_get st now k = (Inr (Response (BookingListData bs) 200), st)
          \<and> (\<forall>b. b \<in> set bs \<longleftrightarrow>
                 b \<in> set (Booking_objects st) \<and> booking_room b = Some k
                 \<and> booking_kind b = BookingKind_ROOM \<and> now < check_in b)
          \<and> bs = filter (\<lambda>b. booking_room b = Some k \<and> booking_kind b = BookingKind_ROOM
                              \<and> now < check_in b) (Booking_objects st)
          \<and> subseq bs (Booking_objects st)"
proof -
  have k: "room_pk room = k" using assms Room_get_pk by blast
  have "RoomBookings_get st now k =
          (Inr (Response (BookingListData (filter (upcoming room now) (Booking_objects st))) 200), st)"
    using assms by (simp add: RoomBookings_get_def RoomBookings_get_object_def)
  moreover have "upcoming room now = (\<lambda>b. booking_room b = Some k \<and> booking_kind b = BookingKind_ROOM
                              \<and> now < check_in b)"
    using k by (auto simp: upcoming_def fun_eq_iff)
  ultimately show ?thesis by auto
qed

theorem upcoming_bookings_filtered_in_store_order_witness:
  "\<exists>bs. RoomBookings_get ex_store 5 1 = (Inr (Response (BookingListData bs) 200), ex_store)
      \<and> map booking_pk bs = [1, 2]"
proof -
  have "filter (\<lambda>b. booking_room b = Some 1 \<and> booking_kind b = BookingKind_ROOM \<and> 5 < check_in b)
          (Booking_objects ex_store) = take 2 ex_bookings"
    by (simp add: ex_store_def ex_bookings_def)
  moreover have "map booking_pk (take 2 ex_bookings) = [1, 2]"
    by (simp add: ex_bookings_def)
  ultimately show ?thesis
    using upcoming_bookings_filtered_in_store_order [OF ex_Room_get, of 5] by auto
qed

text \<open>
  Claim C7 as stated fails: in the example store the bookings returned for room 1 on day
  5 have the check-in days 20 and 12, in this order.
\<close>

theorem upcoming_bookings_not_sorted_counterexample:
  "RoomBookings_get ex_store 5 1 = (Inr (Response (BookingListData (take 2 ex_bookings)) 200), ex_store)
   \<and> map check_in (take 2 ex_bookings) = [20, 12]
   \<and> \<not> sorted (map check_in (take 2 ex_bookings))"
  by (simp add: RoomBookings_get_def RoomBookings_get_object_def Room_get_def key_in_range_def
      ex_store_def ex_room_def
      ex_bookings_def upcoming_def)

text \<open>
  Claim C9, as amended. Every GET on the room list, whoever sends it and whatever its
  query parameters are, is answered with all the rooms of the table, and the store is
  unchanged.
\<close>

theorem room_list_not_paginated:
  assumes "req_method req = GET"
  shows "Rooms_dispatch validate st req = (Inr (Response (RoomListData (Room_objects st)) 200), st)"
  using assms by (simp add: Rooms_dispatch_def IsAuthenticatedOrReadOnly_def Rooms_get_def)

theorem room_list_not_paginated_witness:
  "Rooms_dispatch accept_all (ex_store\<lparr>Room_objects := [ex_room, ex_room2]\<rparr>) (ex_page_request ''abc'')
     = (Inr (Response (RoomListData [ex_room, ex_room2]) 200), ex_store\<lparr>Room_objects := [ex_room, ex_room2]\<rparr>)"
proof -
  have "req_method (ex_page_request ''abc'') = GET"
    by (simp add: ex_page_request_def ex_request_def)
  then show ?thesis
    using room_list_not_paginated
      [of "ex_page_request ''abc''" accept_all "ex_store\<lparr>Room_objects := [ex_room, ex_room2]\<rparr>"]
    by simp
qed

text \<open>
  Claim C9 as stated fails: with two rooms in the table, the requests for page 2 and for
  page 1 both get the two rooms, where page 2 would be the second room alone with pages of
  one row and empty with pages of three rows. No page size makes page 2 of a non-empty
  list the whole list.
\<close>

theorem room_list_page_ignored_counterexample:
  "fst (Rooms_dispatch accept_all (ex_store\<lparr>Room_objects := [ex_room, ex_room2]\<rparr>) (ex_page_request ''2''))
     = Inr (Response (RoomListData [ex_room, ex_room2]) 200)
   \<and> fst (Rooms_dispatch accept_all (ex_store\<lparr>Room_objects := [ex_room, ex_room2]\<rparr>) (ex_page_request ''1''))
     = Inr (Response (RoomListData [ex_room, ex_room2]) 200)
   \<and> spec_page 1 2 [ex_room, ex_room2] = [ex_room2]
   \<and> spec_page 3 2 [ex_room, ex_room2] = []
   \<and> ex_room \<noteq> ex_room2"
  by (simp add: Rooms_dispatch_def IsAuthenticatedOrReadOnly_def Rooms_get_def
      ex_page_request_def ex_request_def spec_page_def ex_room_def ex_room2_def)

lemma spec_page_two_differs:
  "0 < n \<Longrightarrow> xs \<noteq> [] \<Longrightarrow> spec_page n 2 xs \<noteq> xs"
proof
  assume n: "0 < n" and xs: "xs \<noteq> []" and e: "spec_page n 2 xs = xs"
  have "length (spec_page n 2 xs) \<le> length xs - n"
    by (simp add: spec_page_def)
  then have "length xs \<le> length xs - n" using e by simp
  then show False using n xs by (cases xs) auto
qed

end
